theory Spec2Isabelle
  imports Complex_Main
begin

section \<open>Values of the platform\<close>

text \<open>
  A value that reaches a \<^verbatim>\<open>catch\<close> clause is either an \<^verbatim>\<open>Error\<close> object, of which the
  code reads \<^verbatim>\<open>name\<close> and \<^verbatim>\<open>message\<close>, or something that is not an \<^verbatim>\<open>Error\<close>:
  \<^verbatim>\<open>undefined\<close>, or any other value, kept as the text \<^verbatim>\<open>String(v)\<close> gives for it.
\<close>

datatype js_error = JsError (err_name: string) (err_message: string)

datatype thrown = Err js_error | Undefined | Other string

text \<open>A parsed JSON document. An object is the list of its properties.\<close>

datatype json =
    JNull
  | JBool bool
  | JNumber rat
  | JString string
  | JArray "json list"
  | JObject "(string \<times> json) list"

text \<open>
  The body of a response: absent (a null body, as for a HEAD request or a 204), bytes
  that \<^verbatim>\<open>JSON.parse\<close> accepts (the text, and the value it parses to), or bytes that it
  rejects.
\<close>

datatype body = NullBody | JsonBody string json | TextBody string

record response =
  status :: nat
  statusText :: string
  body :: body

text \<open>\<^verbatim>\<open>response.ok\<close>: the status is in the range 200-299.\<close>

definition ok :: "response \<Rightarrow> bool" where
  "ok r = (200 \<le> status r \<and> status r \<le> 299)"

text \<open>
  One call of the platform's \<^verbatim>\<open>fetch\<close> resolves to a response or rejects. The abort that
  the timeout timer of \<^verbatim>\<open>fetchWithRetry\<close> triggers is a rejection with an error named
  \<^verbatim>\<open>AbortError\<close>; a network failure is a rejection with a \<^verbatim>\<open>TypeError\<close>.
\<close>

datatype fetch_outcome = Resolves response | Rejects thrown

text \<open>The decimal text of a number, as a template literal renders it.\<close>

function string_of_nat :: "nat \<Rightarrow> string" where
  "string_of_nat n =
     (if n < 10 then [''0123456789'' ! n]
      else string_of_nat (n div 10) @ [''0123456789'' ! (n mod 10)])"
  by pat_completeness auto
termination
  by (relation "measure id") auto

declare string_of_nat.simps [simp del]

section \<open>fetchWithRetry\<close>

text \<open>
  What a run does besides returning: the calls of \<^verbatim>\<open>fetch\<close> (with the attempt number),
  the back-off waits (\<^verbatim>\<open>setTimeout\<close> with the delay), and the lines of \<^verbatim>\<open>console.warn\<close>
  (attempt, maxRetries, message).
\<close>

datatype event = FetchCall nat | Wait nat | Warn nat int string

text \<open>
  The \<^verbatim>\<open>try\<close> block of one attempt, given what \<^verbatim>\<open>fetch\<close> did: it returns the response
  (2xx or 4xx) or throws (the rejection of \<^verbatim>\<open>fetch\<close>, or the \<^verbatim>\<open>Server error\<close> it raises
  itself for every other status).
\<close>

definition server_error :: "response \<Rightarrow> js_error" where
  "server_error r =
     JsError ''Error'' (''Server error: '' @ string_of_nat (status r) @ '' '' @ statusText r)"

definition attempt_try :: "fetch_outcome \<Rightarrow> thrown + response" where
  "attempt_try out =
     (case out of
        Rejects e \<Rightarrow> Inl e
      | Resolves r \<Rightarrow>
          if ok r then Inr r
          else if 400 \<le> status r \<and> status r < 500 then Inr r
          else Inl (Err (server_error r)))"

text \<open>\<^verbatim>\<open>error instanceof Error ? error : new Error(String(error))\<close>\<close>

fun as_Error :: "thrown \<Rightarrow> js_error" where
  "as_Error (Err e) = e"
| "as_Error Undefined = JsError ''Error'' ''undefined''"
| "as_Error (Other s) = JsError ''Error'' s"

text \<open>\<^verbatim>\<open>Math.min(1000 * Math.pow(2, attempt - 1), 5000)\<close>, for an attempt number from 1 on.\<close>

definition backoff_delay :: "nat \<Rightarrow> nat" where
  "backoff_delay attempt = min (1000 * 2 ^ (attempt - 1)) 5000"

text \<open>
  The loop \<^verbatim>\<open>for (let attempt = 1; attempt <= maxRetries; attempt++)\<close>, from a given
  attempt number on, with the current \<^verbatim>\<open>lastError\<close> (\<open>None\<close> while it is unassigned).
  The environment is \<open>fetch\<close>: what the call of \<^verbatim>\<open>fetch\<close> made by attempt \<open>k\<close> does.
  \<open>maxRetries\<close> is an integer of any sign. The result is what the function returns
  (\<open>Inr\<close>) or throws (\<open>Inl\<close>), and the events in order.
\<close>

function fetchWithRetry_loop ::
  "(nat \<Rightarrow> fetch_outcome) \<Rightarrow> int \<Rightarrow> nat \<Rightarrow> js_error option \<Rightarrow> (thrown + response) \<times> event list"
where
  "fetchWithRetry_loop fetch maxRetries attempt lastError =
     (if int attempt \<le> maxRetries then
        (case attempt_try (fetch attempt) of
           Inr r \<Rightarrow> (Inr r, [FetchCall attempt])
         | Inl error \<Rightarrow>
             (let lastError' = as_Error error in
              if err_name lastError' = ''AbortError''
              then (Inl (Err (JsError ''Error'' ''Request timeout'')), [FetchCall attempt])
              else if int attempt = maxRetries
              then (Inl (Err lastError'), [FetchCall attempt])
              else
                (let delay = backoff_delay attempt;
                     rest = fetchWithRetry_loop fetch maxRetries (Suc attempt) (Some lastError')
                 in (fst rest,
                     FetchCall attempt # Wait delay
                       # Warn attempt maxRetries (err_message lastError') # snd rest))))
      else (case lastError of None \<Rightarrow> (Inl Undefined, []) | Some e \<Rightarrow> (Inl (Err e), [])))"
  by pat_completeness auto
termination
  by (relation "measure (\<lambda>(fetch, maxRetries, attempt, lastError). nat (maxRetries + 1 - int attempt))")
     auto

declare fetchWithRetry_loop.simps [simp del]

definition fetchWithRetry :: "(nat \<Rightarrow> fetch_outcome) \<Rightarrow> int \<Rightarrow> (thrown + response) \<times> event list" where
  "fetchWithRetry fetch maxRetries = fetchWithRetry_loop fetch maxRetries 1 None"

text \<open>The attempt numbers of the calls of \<^verbatim>\<open>fetch\<close> in a run, in order.\<close>

fun requests :: "event list \<Rightarrow> nat list" where
  "requests [] = []"
| "requests (FetchCall k # es) = k # requests es"
| "requests (e # es) = requests es"

section \<open>Reading a response\<close>

text \<open>
  The methods \<^verbatim>\<open>json()\<close> and \<^verbatim>\<open>text()\<close> of a response, as the Fetch standard defines
  them: each reads the body to its end, and a body that has been read cannot be read
  again (the second call rejects with a \<^verbatim>\<open>TypeError\<close>). A null body is never marked as
  read and reads as the empty byte sequence, which is not a JSON document. The flag
  \<open>used\<close> is the state of the body before the call; the new state is returned with the
  result. The wording of the three messages is the engine's; the code only passes it on.
\<close>

definition body_used_error :: js_error where
  "body_used_error = JsError ''TypeError'' ''body stream already read''"

definition json_syntax_error :: js_error where
  "json_syntax_error = JsError ''SyntaxError'' ''Unexpected token in JSON''"

definition null_property_error :: js_error where
  "null_property_error = JsError ''TypeError'' ''Cannot read properties of null''"

definition json_method :: "response \<Rightarrow> bool \<Rightarrow> (thrown + json) \<times> bool" where
  "json_method r used =
     (if used then (Inl (Err body_used_error), used)
      else case body r of
             NullBody \<Rightarrow> (Inl (Err json_syntax_error), False)
           | TextBody t \<Rightarrow> (Inl (Err json_syntax_error), True)
           | JsonBody t v \<Rightarrow> (Inr v, True))"

definition text_method :: "response \<Rightarrow> bool \<Rightarrow> (thrown + string) \<times> bool" where
  "text_method r used =
     (if used then (Inl (Err body_used_error), used)
      else case body r of
             NullBody \<Rightarrow> (Inr [], False)
           | TextBody t \<Rightarrow> (Inr t, True)
           | JsonBody t v \<Rightarrow> (Inr t, True))"

text \<open>
  Reading a property \<^verbatim>\<open>v.key\<close> of a parsed value, for the keys the code reads
  (\<^verbatim>\<open>detail\<close>, \<^verbatim>\<open>message\<close>, \<^verbatim>\<open>completed\<close>): on \<^verbatim>\<open>null\<close> it throws, on an object it is the
  property or \<^verbatim>\<open>undefined\<close> (\<open>None\<close>), on every other value it is \<^verbatim>\<open>undefined\<close>.
\<close>

fun get_property :: "json \<Rightarrow> string \<Rightarrow> thrown + json option" where
  "get_property JNull key = Inl (Err null_property_error)"
| "get_property (JObject kvs) key = Inr (map_of kvs key)"
| "get_property v key = Inr None"

text \<open>Truthiness of a value, \<^verbatim>\<open>undefined\<close> included, and the operator \<^verbatim>\<open>||\<close>.\<close>

fun truthy :: "json option \<Rightarrow> bool" where
  "truthy None = False"
| "truthy (Some JNull) = False"
| "truthy (Some (JBool b)) = b"
| "truthy (Some (JNumber q)) = (q \<noteq> 0)"
| "truthy (Some (JString s)) = (s \<noteq> [])"
| "truthy (Some (JArray vs)) = True"
| "truthy (Some (JObject kvs)) = True"

definition js_or :: "json option \<Rightarrow> json option \<Rightarrow> json option" where
  "js_or a b = (if truthy a then a else b)"

section \<open>apiCall\<close>

record ApiResponse =
  data :: "json option"
  error :: "json option"
  success :: bool

text \<open>\<^verbatim>\<open>`HTTP ${response.status}: ${response.statusText}`\<close>\<close>

definition status_line :: "response \<Rightarrow> string" where
  "status_line r = ''HTTP '' @ string_of_nat (status r) @ '': '' @ statusText r"

text \<open>
  The inner \<^verbatim>\<open>try\<close> block of the branch for a response that is not ok:
  \<^verbatim>\<open>errorData = await response.json(); errorMessage = errorData.detail || errorData.message || errorMessage\<close>.
  It gives the new \<^verbatim>\<open>errorMessage\<close> or throws, and the state of the body afterwards.
\<close>

definition error_body_try :: "response \<Rightarrow> json option \<Rightarrow> (thrown + json option) \<times> bool" where
  "error_body_try r errorMessage =
     (case json_method r False of
        (Inl e, used) \<Rightarrow> (Inl e, used)
      | (Inr errorData, used) \<Rightarrow>
          (case get_property errorData ''detail'' of
             Inl e \<Rightarrow> (Inl e, used)
           | Inr detail \<Rightarrow>
               if truthy detail then (Inr detail, used)
               else (case get_property errorData ''message'' of
                       Inl e \<Rightarrow> (Inl e, used)
                     | Inr message \<Rightarrow> (Inr (js_or message errorMessage), used))))"

text \<open>
  The outer \<^verbatim>\<open>try\<close> block of \<^verbatim>\<open>apiCall\<close>: the result it returns, or what it throws. The
  inner \<^verbatim>\<open>catch\<close> has no \<^verbatim>\<open>try\<close> of its own, so what \<^verbatim>\<open>response.text()\<close> throws there
  leaves the block.
\<close>

definition apiCall_try :: "(nat \<Rightarrow> fetch_outcome) \<Rightarrow> int \<Rightarrow> thrown + ApiResponse" where
  "apiCall_try fetch maxRetries =
     (case fst (fetchWithRetry fetch maxRetries) of
        Inl e \<Rightarrow> Inl e
      | Inr r \<Rightarrow>
          if \<not> ok r then
            (let errorMessage = Some (JString (status_line r)) in
             case error_body_try r errorMessage of
               (Inr errorMessage', used) \<Rightarrow>
                 Inr \<lparr>data = None, error = errorMessage', success = False\<rparr>
             | (Inl e, used) \<Rightarrow>
                 (case fst (text_method r used) of
                    Inl e' \<Rightarrow> Inl e'
                  | Inr errorText \<Rightarrow>
                      Inr \<lparr>data = None,
                           error = (if errorText \<noteq> [] then Some (JString errorText) else errorMessage),
                           success = False\<rparr>))
          else
            (case fst (json_method r False) of
               Inl e \<Rightarrow> Inl e
             | Inr d \<Rightarrow> Inr \<lparr>data = Some d, error = None, success = True\<rparr>))"

text \<open>\<^verbatim>\<open>error instanceof Error ? error.message : 'Unknown error occurred'\<close>\<close>

fun catch_message :: "thrown \<Rightarrow> string" where
  "catch_message (Err e) = err_message e"
| "catch_message e = ''Unknown error occurred''"

text \<open>
  \<^verbatim>\<open>apiCall\<close>: the outer \<^verbatim>\<open>try\<close> block and its \<^verbatim>\<open>catch\<close>. The result type still has a place
  for a thrown value, as the promise of every \<^verbatim>\<open>async\<close> function has.
\<close>

definition apiCall :: "(nat \<Rightarrow> fetch_outcome) \<Rightarrow> int \<Rightarrow> thrown + ApiResponse" where
  "apiCall fetch maxRetries =
     (case apiCall_try fetch maxRetries of
        Inr result \<Rightarrow> Inr result
      | Inl e \<Rightarrow> Inr \<lparr>data = None, error = Some (JString (catch_message e)), success = False\<rparr>)"

text \<open>
  The fallback chain as the specification words it: the \<^verbatim>\<open>detail\<close> field of a JSON body if
  present, else its \<^verbatim>\<open>message\<close> field, else the body as plain text if it is not empty,
  else the status line.
\<close>

fun body_text :: "body \<Rightarrow> string" where
  "body_text NullBody = []"
| "body_text (TextBody t) = t"
| "body_text (JsonBody t v) = t"

fun body_field :: "body \<Rightarrow> string \<Rightarrow> json option" where
  "body_field (JsonBody t (JObject kvs)) key = map_of kvs key"
| "body_field b key = None"

definition spec_error_chain :: "response \<Rightarrow> json" where
  "spec_error_chain r =
     (case body_field (body r) ''detail'' of
        Some d \<Rightarrow> d
      | None \<Rightarrow>
          (case body_field (body r) ''message'' of
             Some m \<Rightarrow> m
           | None \<Rightarrow>
               if body_text (body r) \<noteq> [] then JString (body_text (body r))
               else JString (status_line r)))"

section \<open>The pollers\<close>

text \<open>
  What a polling session does besides returning: the status checks (with the iteration
  number, from 0), the waits between them, and the lines of \<^verbatim>\<open>console.warn\<close>.
\<close>

datatype poll_event = StatusCheck nat | Sleep nat | PollWarn thrown

definition POLLING_INTERVAL :: nat where
  "POLLING_INTERVAL = 2000"

text \<open>\<^verbatim>\<open>response.success && (response.data as { completed?: boolean })?.completed\<close>\<close>

definition reports_completed :: "ApiResponse \<Rightarrow> bool" where
  "reports_completed response =
     (success response \<and>
      (case data response of
         None \<Rightarrow> False
       | Some JNull \<Rightarrow> False
       | Some d \<Rightarrow> (case get_property d ''completed'' of Inl e \<Rightarrow> False | Inr c \<Rightarrow> truthy c)))"

text \<open>
  \<^verbatim>\<open>waitForGeneration\<close> of the dashboard: the loop \<^verbatim>\<open>for (let i = 0; i < 60; i++)\<close> inside
  a \<^verbatim>\<open>try\<close>, then \<^verbatim>\<open>return true\<close>. The bound is a parameter of the loop, 60 in the
  function. Iteration \<open>i\<close> calls \<^verbatim>\<open>apiCall\<close> with the default \<^verbatim>\<open>maxRetries = 3\<close>;
  \<open>fetches i\<close> is what \<^verbatim>\<open>fetch\<close> does during that call. A value thrown in the loop would
  reach the \<^verbatim>\<open>catch\<close> around it, be logged, and the function would return true.
\<close>

function waitForGeneration_loop ::
  "nat \<Rightarrow> (nat \<Rightarrow> nat \<Rightarrow> fetch_outcome) \<Rightarrow> nat \<Rightarrow> (thrown + bool) \<times> poll_event list"
where
  "waitForGeneration_loop bound fetches i =
     (if i < bound then
        (case apiCall (fetches i) 3 of
           Inl e \<Rightarrow> (Inr True, [StatusCheck i, PollWarn e])
         | Inr response \<Rightarrow>
             if reports_completed response then (Inr True, [StatusCheck i])
             else
               (let rest = waitForGeneration_loop bound fetches (Suc i)
                in (fst rest, StatusCheck i # Sleep POLLING_INTERVAL # snd rest)))
      else (Inr True, []))"
  by pat_completeness auto
termination
  by (relation "measure (\<lambda>(bound, fetches, i). bound - i)") auto

declare waitForGeneration_loop.simps [simp del]

definition waitForGeneration :: "(nat \<Rightarrow> nat \<Rightarrow> fetch_outcome) \<Rightarrow> (thrown + bool) \<times> poll_event list" where
  "waitForGeneration fetches = waitForGeneration_loop 60 fetches 0"

text \<open>
  \<^verbatim>\<open>waitForGenerationCompletion\<close> of the generator page. The \<^verbatim>\<open>try\<close> block of one
  iteration, given what its call of \<^verbatim>\<open>fetch\<close> did: \<open>Inr True\<close> when it executes
  \<^verbatim>\<open>return true\<close>, \<open>Inr False\<close> when it ends without, \<open>Inl\<close> when it throws.
\<close>

definition status_try :: "fetch_outcome \<Rightarrow> thrown + bool" where
  "status_try out =
     (case out of
        Rejects e \<Rightarrow> Inl e
      | Resolves statusResp \<Rightarrow>
          if ok statusResp then
            (case fst (json_method statusResp False) of
               Inl e \<Rightarrow> Inl e
             | Inr statusData \<Rightarrow>
                 (case get_property statusData ''completed'' of
                    Inl e \<Rightarrow> Inl e
                  | Inr c \<Rightarrow> Inr (truthy c)))
          else Inr False)"

definition pollInterval :: nat where
  "pollInterval = 3000"

definition timed_out :: thrown where
  "timed_out = Err (JsError ''Error'' ''Generation process timed out'')"

text \<open>
  The loop \<^verbatim>\<open>while (Date.now() - startTime < maxWaitTime)\<close>. The environment is the clock
  (\<open>now k\<close> is what the call number \<open>k\<close> of \<^verbatim>\<open>Date.now()\<close> returns; call 0 sets
  \<^verbatim>\<open>startTime\<close>, call \<open>i + 1\<close> is the test before iteration \<open>i\<close>) and \<open>fetch\<close> (what the
  call of \<^verbatim>\<open>fetch\<close> in iteration \<open>i\<close> does). Nothing bounds the number of iterations
  when the clock does not advance: a session that never ends has the value \<open>None\<close>.
  The events so far are carried along.
\<close>

partial_function (option) waitForGenerationCompletion_loop ::
  "(nat \<Rightarrow> int) \<Rightarrow> (nat \<Rightarrow> fetch_outcome) \<Rightarrow> int \<Rightarrow> int \<Rightarrow> nat \<Rightarrow> poll_event list
     \<Rightarrow> ((thrown + bool) \<times> poll_event list) option"
where
  "waitForGenerationCompletion_loop now fetch maxWaitTime startTime i tr =
     (if now (Suc i) - startTime < maxWaitTime then
        (case status_try (fetch i) of
           Inr completed \<Rightarrow>
             if completed then Some (Inr True, tr @ [StatusCheck i])
             else waitForGenerationCompletion_loop now fetch maxWaitTime startTime (Suc i)
                    (tr @ [StatusCheck i, Sleep pollInterval])
         | Inl e \<Rightarrow>
             waitForGenerationCompletion_loop now fetch maxWaitTime startTime (Suc i)
               (tr @ [StatusCheck i, PollWarn e, Sleep pollInterval]))
      else Some (Inl timed_out, tr))"

definition waitForGenerationCompletion ::
  "(nat \<Rightarrow> int) \<Rightarrow> (nat \<Rightarrow> fetch_outcome) \<Rightarrow> int \<Rightarrow> ((thrown + bool) \<times> poll_event list) option"
where
  "waitForGenerationCompletion now fetch maxWaitTime =
     waitForGenerationCompletion_loop now fetch maxWaitTime (now 0) 0 []"

section \<open>Reading the event lists\<close>

text \<open>The iteration numbers of the status checks in a session, in order.\<close>

fun checks :: "poll_event list \<Rightarrow> nat list" where
  "checks [] = []"
| "checks (StatusCheck i # es) = i # checks es"
| "checks (e # es) = checks es"

text \<open>
  A list of events of the generator's poller, and the value the session ends with, treat
  failed checks as follows: every check whose \<^verbatim>\<open>try\<close> block throws is followed by the
  warning and the wait, and then by the next check when the clock allows it, and by
  nothing but the time-out otherwise.
\<close>

definition failures_continue ::
  "(nat \<Rightarrow> int) \<Rightarrow> (nat \<Rightarrow> fetch_outcome) \<Rightarrow> int \<Rightarrow> int \<Rightarrow> thrown + bool \<Rightarrow> poll_event list \<Rightarrow> bool"
where
  "failures_continue now fetch W st res suf =
     (\<forall>pre j post e. suf = pre @ StatusCheck j # post \<longrightarrow> status_try (fetch j) = Inl e \<longrightarrow>
        (\<exists>post'. post = PollWarn e # Sleep pollInterval # post' \<and>
           (now (Suc (Suc j)) - st < W \<longrightarrow> (\<exists>post''. post' = StatusCheck (Suc j) # post'')) \<and>
           (\<not> now (Suc (Suc j)) - st < W \<longrightarrow> post' = [] \<and> res = Inl timed_out)))"

text \<open>A text between double quotes, for writing JSON documents.\<close>

definition quoted :: "string \<Rightarrow> string" where
  "quoted s = CHR 0x22 # s @ [CHR 0x22]"

section \<open>The retry loop, one attempt at a time\<close>

lemma loop_done:
  "\<not> int a \<le> m \<Longrightarrow>
   fetchWithRetry_loop f m a le =
     (case le of None \<Rightarrow> (Inl Undefined, []) | Some e \<Rightarrow> (Inl (Err e), []))"
  by (simp add: fetchWithRetry_loop.simps)

lemma loop_return:
  "int a \<le> m \<Longrightarrow> attempt_try (f a) = Inr r \<Longrightarrow>
   fetchWithRetry_loop f m a le = (Inr r, [FetchCall a])"
  by (simp add: fetchWithRetry_loop.simps)

lemma loop_abort:
  "int a \<le> m \<Longrightarrow> attempt_try (f a) = Inl e \<Longrightarrow> err_name (as_Error e) = ''AbortError'' \<Longrightarrow>
   fetchWithRetry_loop f m a le =
     (Inl (Err (JsError ''Error'' ''Request timeout'')), [FetchCall a])"
  by (simp add: fetchWithRetry_loop.simps)

lemma loop_last:
  "int a = m \<Longrightarrow> attempt_try (f a) = Inl e \<Longrightarrow> err_name (as_Error e) \<noteq> ''AbortError'' \<Longrightarrow>
   fetchWithRetry_loop f m a le = (Inl (Err (as_Error e)), [FetchCall a])"
  by (simp add: fetchWithRetry_loop.simps)

lemma loop_retry:
  "int a < m \<Longrightarrow> attempt_try (f a) = Inl e \<Longrightarrow> err_name (as_Error e) \<noteq> ''AbortError'' \<Longrightarrow>
   fetchWithRetry_loop f m a le =
     (fst (fetchWithRetry_loop f m (Suc a) (Some (as_Error e))),
      FetchCall a # Wait (backoff_delay a) # Warn a m (err_message (as_Error e))
        # snd (fetchWithRetry_loop f m (Suc a) (Some (as_Error e))))"
  by (subst fetchWithRetry_loop.simps) (simp add: Let_def)

lemma requests_FetchCall: "FetchCall k \<in> set tr \<longleftrightarrow> k \<in> set (requests tr)"
  by (induction tr rule: requests.induct) auto

lemma attempt_try_5xx:
  "500 \<le> status r \<Longrightarrow> attempt_try (Resolves r) = Inl (Err (server_error r))"
  by (simp add: attempt_try_def ok_def)

lemma server_error_name: "err_name (server_error r) = ''Error''"
  by (simp add: server_error_def)

lemma backoff_delay_values:
  "1 < k \<Longrightarrow>
   backoff_delay (k - 1) = min (1000 * 2 ^ (k - 2)) 5000 \<and>
   backoff_delay (k - 1) = (if k = 2 then 1000 else if k = 3 then 2000 else if k = 4 then 4000 else 5000)"
proof -
  assume k: "1 < k"
  have e: "k - 1 - 1 = k - 2" by simp
  have big: "min (1000 * 2 ^ (k - 2)) 5000 = (5000::nat)" if "5 \<le> k"
  proof -
    from that have "(2::nat) ^ 3 \<le> 2 ^ (k - 2)" by (intro power_increasing) auto
    then show ?thesis by simp
  qed
  have d: "backoff_delay (k - 1) = min (1000 * 2 ^ (k - 2)) 5000"
    by (simp only: backoff_delay_def e)
  consider "k = 2" | "k = 3" | "k = 4" | "5 \<le> k" using k by linarith
  then show ?thesis
  proof cases
    case 4
    then have "k \<noteq> 2" "k \<noteq> 3" "k \<noteq> 4" by simp_all
    with d big [OF 4] show ?thesis by (simp only: if_False simp_thms)
  qed (simp_all add: backoff_delay_def)
qed

text \<open>
  Where a call of \<^verbatim>\<open>fetch\<close> stands in the events of the loop started at attempt \<open>a\<close>:
  it is the first event when it is attempt \<open>a\<close>, and otherwise it comes right after
  the previous attempt, its back-off wait and its warning.
\<close>

lemma loop_trace_split:
  "snd (fetchWithRetry_loop f m a le) = pre @ FetchCall k # post \<Longrightarrow>
   a \<le> k \<and> (k = a \<longrightarrow> pre = []) \<and>
   (a < k \<longrightarrow>
      (\<exists>pre' msg. pre = pre' @ [FetchCall (k - 1), Wait (backoff_delay (k - 1)), Warn (k - 1) m msg]))"
proof (induction f m a le arbitrary: pre rule: fetchWithRetry_loop.induct)
  case (1 f m a le)
  show ?case
  proof (cases "int a \<le> m")
    case False
    with "1.prems" show ?thesis by (simp add: loop_done split: option.splits)
  next
    case True
    show ?thesis
    proof (cases "attempt_try (f a)")
      case (Inr r)
      with True "1.prems" show ?thesis
        by (auto simp: loop_return append_eq_Cons_conv Cons_eq_append_conv)
    next
      case (Inl e)
      show ?thesis
      proof (cases "err_name (as_Error e) = ''AbortError''")
        case True
        with \<open>int a \<le> m\<close> Inl "1.prems" show ?thesis
          by (auto simp: loop_abort append_eq_Cons_conv Cons_eq_append_conv)
      next
        case nab: False
        show ?thesis
        proof (cases "int a = m")
          case True
          with nab Inl "1.prems" show ?thesis
            by (auto simp: loop_last append_eq_Cons_conv Cons_eq_append_conv)
        next
          case False
          with \<open>int a \<le> m\<close> have lt: "int a < m" by simp
          let ?rest = "snd (fetchWithRetry_loop f m (Suc a) (Some (as_Error e)))"
          from "1.prems" lt Inl nab have eq:
            "FetchCall a # Wait (backoff_delay a) # Warn a m (err_message (as_Error e)) # ?rest
               = pre @ FetchCall k # post"
            by (simp add: loop_retry)
          show ?thesis
          proof (cases pre)
            case Nil
            with eq show ?thesis by simp
          next
            case (Cons x pre1)
            with eq obtain pre3 where
              pre: "pre = FetchCall a # Wait (backoff_delay a)
                      # Warn a m (err_message (as_Error e)) # pre3"
              and r: "?rest = pre3 @ FetchCall k # post"
              by (auto simp: Cons_eq_append_conv)
            from "1.IH" [OF \<open>int a \<le> m\<close> Inl refl nab False refl r]
            have ih: "Suc a \<le> k" "k = Suc a \<longrightarrow> pre3 = []"
              "Suc a < k \<longrightarrow>
                 (\<exists>pre' msg. pre3 = pre' @ [FetchCall (k - 1), Wait (backoff_delay (k - 1)),
                                             Warn (k - 1) m msg])"
              by auto
            show ?thesis
            proof (cases "k = Suc a")
              case True
              with ih pre show ?thesis by auto
            next
              case False
              with ih have "Suc a < k" by simp
              with ih pre show ?thesis by auto
            qed
          qed
        qed
      qed
    qed
  qed
qed

text \<open>Responses with a status of 500 or more on every attempt from \<open>a\<close> to \<open>N\<close>.\<close>

lemma loop_5xx:
  "a \<le> N \<Longrightarrow>
   \<forall>k. a \<le> k \<and> k \<le> N \<longrightarrow> fetch k = Resolves (resp k) \<and> 500 \<le> status (resp k) \<Longrightarrow>
   fst (fetchWithRetry_loop fetch (int N) a le) = Inl (Err (server_error (resp N))) \<and>
   requests (snd (fetchWithRetry_loop fetch (int N) a le)) = [a..<Suc N]"
proof (induction "N - a" arbitrary: a le)
  case 0
  then have aN: "a = N" by simp
  from "0.prems" aN have t: "attempt_try (fetch N) = Inl (Err (server_error (resp N)))"
    by (simp add: attempt_try_5xx)
  show ?case
    using loop_last [of N "int N" fetch "Err (server_error (resp N))" le] t aN
    by (simp add: server_error_name)
next
  case (Suc d)
  then have lt: "a < N" by simp
  from Suc.prems lt have t: "attempt_try (fetch a) = Inl (Err (server_error (resp a)))"
    by (simp add: attempt_try_5xx)
  have d: "d = N - Suc a" using Suc.hyps by simp
  have ih:
    "fst (fetchWithRetry_loop fetch (int N) (Suc a) (Some (server_error (resp a))))
       = Inl (Err (server_error (resp N))) \<and>
     requests (snd (fetchWithRetry_loop fetch (int N) (Suc a) (Some (server_error (resp a)))))
       = [Suc a..<Suc N]"
    using Suc.hyps(1) [OF d, of "Some (server_error (resp a))"] Suc.prems lt by simp
  show ?case
    using loop_retry [of a "int N" fetch "Err (server_error (resp a))" le] t lt ih
    by (simp add: server_error_name upt_conv_Cons)
qed

text \<open>An attempt that is made and whose call of \<^verbatim>\<open>fetch\<close> is aborted.\<close>

lemma loop_timeout:
  "FetchCall k \<in> set (snd (fetchWithRetry_loop f m a le)) \<Longrightarrow>
   f k = Rejects e \<Longrightarrow> err_name (as_Error e) = ''AbortError'' \<Longrightarrow>
   fst (fetchWithRetry_loop f m a le) = Inl (Err (JsError ''Error'' ''Request timeout'')) \<and>
   requests (snd (fetchWithRetry_loop f m a le)) = [a..<Suc k] \<and>
   last (snd (fetchWithRetry_loop f m a le)) = FetchCall k"
proof (induction f m a le rule: fetchWithRetry_loop.induct)
  case (1 f m a le)
  have tk: "attempt_try (f k) = Inl e" using "1.prems" by (simp add: attempt_try_def)
  show ?case
  proof (cases "int a \<le> m")
    case False
    with "1.prems" show ?thesis by (simp add: loop_done split: option.splits)
  next
    case True
    show ?thesis
    proof (cases "attempt_try (f a)")
      case (Inr r)
      with True "1.prems" tk show ?thesis by (auto simp: loop_return)
    next
      case (Inl e')
      show ?thesis
      proof (cases "err_name (as_Error e') = ''AbortError''")
        case True
        with \<open>int a \<le> m\<close> Inl "1.prems" show ?thesis by (auto simp: loop_abort)
      next
        case nab: False
        show ?thesis
        proof (cases "int a = m")
          case True
          with nab Inl "1.prems" tk show ?thesis by (auto simp: loop_last)
        next
          case False
          with \<open>int a \<le> m\<close> have lt: "int a < m" by simp
          let ?rest = "fetchWithRetry_loop f m (Suc a) (Some (as_Error e'))"
          have unf: "fetchWithRetry_loop f m a le =
            (fst ?rest,
             FetchCall a # Wait (backoff_delay a) # Warn a m (err_message (as_Error e')) # snd ?rest)"
            using lt Inl nab by (rule loop_retry)
          have ka: "k \<noteq> a" using Inl nab tk "1.prems" by auto
          with "1.prems" unf have mem: "FetchCall k \<in> set (snd ?rest)" by simp
          from "1.IH" [OF \<open>int a \<le> m\<close> Inl refl nab False refl mem "1.prems"(2,3)]
          have ih: "fst ?rest = Inl (Err (JsError ''Error'' ''Request timeout''))"
            "requests (snd ?rest) = [Suc a..<Suc k]" "last (snd ?rest) = FetchCall k"
            by auto
          from mem ih(2) have "Suc a \<le> k" by (auto simp: requests_FetchCall)
          with ih mem show ?thesis by (auto simp: unf upt_conv_Cons)
        qed
      qed
    qed
  qed
qed

text \<open>A response that the loop returns is ok or a 4xx.\<close>

lemma attempt_try_returns:
  "attempt_try out = Inr r \<Longrightarrow> ok r \<or> (400 \<le> status r \<and> status r < 500)"
  by (auto simp: attempt_try_def split: fetch_outcome.splits if_splits)

lemma loop_returns:
  "fst (fetchWithRetry_loop f m a le) = Inr r \<Longrightarrow> ok r \<or> (400 \<le> status r \<and> status r < 500)"
proof (induction f m a le rule: fetchWithRetry_loop.induct)
  case (1 f m a le)
  show ?case
  proof (cases "int a \<le> m")
    case False
    with "1.prems" show ?thesis by (simp add: loop_done split: option.splits)
  next
    case True
    show ?thesis
    proof (cases "attempt_try (f a)")
      case (Inr r')
      with True "1.prems" show ?thesis by (auto simp: loop_return dest: attempt_try_returns)
    next
      case (Inl e)
      show ?thesis
      proof (cases "err_name (as_Error e) = ''AbortError''")
        case True
        with \<open>int a \<le> m\<close> Inl "1.prems" show ?thesis by (simp add: loop_abort)
      next
        case nab: False
        show ?thesis
        proof (cases "int a = m")
          case True
          with nab Inl "1.prems" show ?thesis by (simp add: loop_last)
        next
          case False
          with \<open>int a \<le> m\<close> have lt: "int a < m" by simp
          from "1.prems" lt Inl nab
          have "fst (fetchWithRetry_loop f m (Suc a) (Some (as_Error e))) = Inr r"
            by (simp add: loop_retry)
          from "1.IH" [OF \<open>int a \<le> m\<close> Inl refl nab False refl this] show ?thesis .
        qed
      qed
    qed
  qed
qed

lemma first_attempt_made:
  "FetchCall 1 \<in> set (snd (fetchWithRetry f m)) \<Longrightarrow> 1 \<le> m"
  by (cases "1 \<le> m") (simp_all add: fetchWithRetry_def loop_done)

section \<open>Properties of fetchWithRetry\<close>

text \<open>
  C10. With \<open>maxRetries\<close> below 1 the loop body never runs: no call of \<^verbatim>\<open>fetch\<close> is made,
  no response is returned, and the function throws the unassigned \<^verbatim>\<open>lastError\<close>, which
  is \<^verbatim>\<open>undefined\<close> and not an \<^verbatim>\<open>Error\<close>.
\<close>

theorem fetchWithRetry_no_budget:
  "maxRetries < 1 \<Longrightarrow> fetchWithRetry fetch maxRetries = (Inl Undefined, [])"
  by (simp add: fetchWithRetry_def loop_done)

theorem fetchWithRetry_no_budget_witness:
  "fetchWithRetry (\<lambda>k. Resolves \<lparr>status = 200, statusText = ''OK'', body = NullBody\<rparr>) 0
     = (Inl Undefined, [])"
proof -
  have h: "(0::int) < 1" by simp
  from fetchWithRetry_no_budget [OF h] show ?thesis .
qed

text \<open>
  C6. Whatever \<open>maxRetries\<close> is, when the first attempt is made and its response is a
  4xx, that response is returned at once: one call of \<^verbatim>\<open>fetch\<close>, no wait, no retry.
\<close>

theorem fetchWithRetry_client_error:
  assumes "FetchCall 1 \<in> set (snd (fetchWithRetry fetch maxRetries))"
    and "fetch 1 = Resolves r" and "400 \<le> status r" and "status r < 500"
  shows "fetchWithRetry fetch maxRetries = (Inr r, [FetchCall 1])"
proof -
  from assms(1) have "1 \<le> maxRetries" by (rule first_attempt_made)
  with assms(2-4) show ?thesis
    by (simp add: fetchWithRetry_def loop_return attempt_try_def)
qed

theorem fetchWithRetry_client_error_witness:
  "fetchWithRetry (\<lambda>k. Resolves \<lparr>status = 404, statusText = ''Not Found'', body = TextBody ''Not Found''\<rparr>) 5
     = (Inr \<lparr>status = 404, statusText = ''Not Found'', body = TextBody ''Not Found''\<rparr>, [FetchCall 1])"
proof -
  let ?r = "\<lparr>status = 404, statusText = ''Not Found'', body = TextBody ''Not Found''\<rparr>"
  have h1: "FetchCall 1 \<in> set (snd (fetchWithRetry (\<lambda>k. Resolves ?r) 5))"
    by (simp add: fetchWithRetry_def fetchWithRetry_loop.simps attempt_try_def ok_def)
  have h2: "(\<lambda>k::nat. Resolves ?r) 1 = Resolves ?r" by simp
  have h3: "400 \<le> status ?r" and h4: "status ?r < 500" by simp_all
  from fetchWithRetry_client_error [of "\<lambda>k. Resolves ?r" 5 ?r, OF h1 h2 h3 h4] show ?thesis .
qed

text \<open>
  C3. With \<open>maxRetries = N\<close>, \<open>N\<close> at least 1, and a 5xx response on every attempt, the
  run calls \<^verbatim>\<open>fetch\<close> exactly \<open>N\<close> times (attempts 1 to \<open>N\<close>) and then throws the last
  error it has seen, the \<^verbatim>\<open>Server error\<close> made from the response of attempt \<open>N\<close>.
\<close>

theorem fetchWithRetry_server_errors:
  assumes "1 \<le> N"
    and "\<forall>k. 1 \<le> k \<and> k \<le> N \<longrightarrow>
           fetch k = Resolves (resp k) \<and> 500 \<le> status (resp k) \<and> status (resp k) \<le> 599"
  shows "fst (fetchWithRetry fetch (int N)) =
           Inl (Err (JsError ''Error''
             (''Server error: '' @ string_of_nat (status (resp N)) @ '' '' @ statusText (resp N)))) \<and>
         requests (snd (fetchWithRetry fetch (int N))) = [1..<Suc N]"
proof -
  from assms(2) have "\<forall>k. 1 \<le> k \<and> k \<le> N \<longrightarrow> fetch k = Resolves (resp k) \<and> 500 \<le> status (resp k)"
    by blast
  from loop_5xx [OF assms(1) this, of None] show ?thesis
    by (simp add: fetchWithRetry_def server_error_def)
qed

theorem fetchWithRetry_server_errors_witness:
  "fst (fetchWithRetry
          (\<lambda>k. Resolves \<lparr>status = 503, statusText = ''Service Unavailable'', body = NullBody\<rparr>) 2)
     = Inl (Err (JsError ''Error'' ''Server error: 503 Service Unavailable'')) \<and>
   requests (snd (fetchWithRetry
          (\<lambda>k. Resolves \<lparr>status = 503, statusText = ''Service Unavailable'', body = NullBody\<rparr>) 2))
     = [1, 2]"
proof -
  let ?r = "\<lparr>status = 503, statusText = ''Service Unavailable'', body = NullBody\<rparr>"
  have h1: "(1::nat) \<le> 2" by simp
  have h2: "\<forall>k. 1 \<le> k \<and> k \<le> (2::nat) \<longrightarrow>
      (\<lambda>k. Resolves ?r) k = Resolves ((\<lambda>k. ?r) k) \<and>
      500 \<le> status ((\<lambda>k. ?r) k) \<and> status ((\<lambda>k. ?r) k) \<le> 599"
    by simp
  from fetchWithRetry_server_errors [of 2 "\<lambda>k. Resolves ?r" "\<lambda>k. ?r", OF h1 h2]
  show ?thesis by (simp add: string_of_nat.simps upt_conv_Cons)
qed

text \<open>
  C4. Every attempt \<open>k\<close> after the first that a run reaches comes right after attempt
  \<open>k - 1\<close>, one wait and the warning of attempt \<open>k - 1\<close>; the wait is
  \<open>min (1000 * 2 ^ (k - 2)) 5000\<close>, that is 1000 before attempt 2, 2000 before attempt 3,
  4000 before attempt 4 and 5000 before every later attempt.
\<close>

theorem fetchWithRetry_backoff:
  assumes "snd (fetchWithRetry fetch maxRetries) = pre @ FetchCall k # post"
    and "1 < k"
  shows "\<exists>pre' d msg.
           pre = pre' @ [FetchCall (k - 1), Wait d, Warn (k - 1) maxRetries msg] \<and>
           d = min (1000 * 2 ^ (k - 2)) 5000 \<and>
           d = (if k = 2 then 1000 else if k = 3 then 2000 else if k = 4 then 4000 else 5000)"
proof -
  from assms(1) have "snd (fetchWithRetry_loop fetch maxRetries 1 None) = pre @ FetchCall k # post"
    by (simp add: fetchWithRetry_def)
  from loop_trace_split [OF this] assms(2) obtain pre' msg where
    "pre = pre' @ [FetchCall (k - 1), Wait (backoff_delay (k - 1)), Warn (k - 1) maxRetries msg]"
    by auto
  with backoff_delay_values [OF assms(2)] show ?thesis by blast
qed

theorem fetchWithRetry_backoff_witness:
  "\<exists>pre' d msg.
     [FetchCall 1, Wait 1000, Warn 1 3 ''Failed to fetch'', FetchCall 2, Wait 2000,
      Warn 2 3 ''Failed to fetch'']
       = pre' @ [FetchCall (3 - 1), Wait d, Warn (3 - 1) 3 msg] \<and>
     d = min (1000 * 2 ^ (3 - 2)) 5000 \<and>
     d = (if (3::nat) = 2 then 1000 else if (3::nat) = 3 then 2000
          else if (3::nat) = 4 then 4000 else 5000)"
proof -
  let ?f = "\<lambda>k::nat. Rejects (Err (JsError ''TypeError'' ''Failed to fetch''))"
  have h1: "snd (fetchWithRetry ?f 3) =
      [FetchCall 1, Wait 1000, Warn 1 3 ''Failed to fetch'', FetchCall 2, Wait 2000,
       Warn 2 3 ''Failed to fetch''] @ FetchCall 3 # []"
    by (simp add: fetchWithRetry_def fetchWithRetry_loop.simps attempt_try_def backoff_delay_def)
  have h2: "(1::nat) < 3" by simp
  from fetchWithRetry_backoff [OF h1 h2] show ?thesis .
qed

text \<open>
  C5. An attempt that is made and whose call of \<^verbatim>\<open>fetch\<close> is aborted by the timeout ends
  the run, whatever \<open>maxRetries\<close> still allows: the function throws the error
  \<^verbatim>\<open>Request timeout\<close>, and the aborted call is its last event, so the calls of
  \<^verbatim>\<open>fetch\<close> are the attempts 1 to \<open>k\<close> and no more.
\<close>

theorem fetchWithRetry_timeout:
  assumes "FetchCall k \<in> set (snd (fetchWithRetry fetch maxRetries))"
    and "fetch k = Rejects (Err (JsError ''AbortError'' msg))"
  shows "fst (fetchWithRetry fetch maxRetries) = Inl (Err (JsError ''Error'' ''Request timeout'')) \<and>
         requests (snd (fetchWithRetry fetch maxRetries)) = [1..<Suc k] \<and>
         last (snd (fetchWithRetry fetch maxRetries)) = FetchCall k"
proof -
  have n: "err_name (as_Error (Err (JsError ''AbortError'' msg))) = ''AbortError''" by simp
  from assms(1) have "FetchCall k \<in> set (snd (fetchWithRetry_loop fetch maxRetries 1 None))"
    by (simp add: fetchWithRetry_def)
  from loop_timeout [OF this assms(2) n] show ?thesis
    by (simp add: fetchWithRetry_def)
qed

theorem fetchWithRetry_timeout_witness:
  "fst (fetchWithRetry
          (\<lambda>k. if k = 2 then Rejects (Err (JsError ''AbortError'' ''The operation was aborted.''))
                else Rejects (Err (JsError ''TypeError'' ''Failed to fetch''))) 5)
     = Inl (Err (JsError ''Error'' ''Request timeout'')) \<and>
   requests (snd (fetchWithRetry
          (\<lambda>k. if k = 2 then Rejects (Err (JsError ''AbortError'' ''The operation was aborted.''))
                else Rejects (Err (JsError ''TypeError'' ''Failed to fetch''))) 5))
     = [1, 2]"
proof -
  let ?f = "\<lambda>k::nat. if k = 2 then Rejects (Err (JsError ''AbortError'' ''The operation was aborted.''))
                else Rejects (Err (JsError ''TypeError'' ''Failed to fetch''))"
  have tr: "snd (fetchWithRetry ?f 5) = [FetchCall 1, Wait 1000, Warn 1 5 ''Failed to fetch'', FetchCall 2]"
    by (simp add: fetchWithRetry_def fetchWithRetry_loop.simps attempt_try_def backoff_delay_def)
  have h1: "FetchCall 2 \<in> set (snd (fetchWithRetry ?f 5))" by (simp add: tr)
  have h2: "?f 2 = Rejects (Err (JsError ''AbortError'' ''The operation was aborted.''))" by simp
  from fetchWithRetry_timeout [OF h1 h2] show ?thesis by (simp add: upt_conv_Cons)
qed

section \<open>Properties of apiCall\<close>

lemma apiCall_returns: "\<exists>r. apiCall f m = Inr r"
  by (simp add: apiCall_def split: sum.splits)

lemma apiCall_try_executor_fault:
  "fst (fetchWithRetry f m) = Inl e \<Longrightarrow> apiCall_try f m = Inl e"
  by (simp add: apiCall_try_def)

lemma apiCall_try_parse_fault:
  "fst (fetchWithRetry f m) = Inr r \<Longrightarrow> ok r \<Longrightarrow> fst (json_method r False) = Inl e \<Longrightarrow>
   apiCall_try f m = Inl e"
  by (simp add: apiCall_try_def)

lemma apiCall_caught:
  "apiCall_try f m = Inl e \<Longrightarrow>
   apiCall f m = Inr \<lparr>data = None, error = Some (JString (catch_message e)), success = False\<rparr>"
  by (simp add: apiCall_def)

lemma apiCall_executor_fault:
  "fst (fetchWithRetry f m) = Inl e \<Longrightarrow>
   apiCall f m = Inr \<lparr>data = None, error = Some (JString (catch_message e)), success = False\<rparr>"
  by (simp add: apiCall_caught apiCall_try_executor_fault)

lemma truthy_defined: "truthy x \<Longrightarrow> x \<noteq> None"
  by (cases x) simp_all

lemma executor_single:
  "1 \<le> m \<Longrightarrow> attempt_try (f 1) = Inr r \<Longrightarrow> fetchWithRetry f m = (Inr r, [FetchCall 1])"
  by (simp add: fetchWithRetry_def loop_return)

lemma executor_network_failure:
  "fetchWithRetry (\<lambda>k. Rejects (Err (JsError ''TypeError'' ''Failed to fetch''))) 3 =
     (Inl (Err (JsError ''TypeError'' ''Failed to fetch'')),
      [FetchCall 1, Wait 1000, Warn 1 3 ''Failed to fetch'', FetchCall 2, Wait 2000,
       Warn 2 3 ''Failed to fetch'', FetchCall 3])"
  by (simp add: fetchWithRetry_def fetchWithRetry_loop.simps attempt_try_def backoff_delay_def)

text \<open>
  The tags of a result exclude each other: a successful result has data and no error, a
  failed one has an error and no data. What the error is, is another matter.
\<close>

lemma apiCall_tagging:
  "apiCall f m = Inr r \<Longrightarrow>
   (success r \<longrightarrow> data r \<noteq> None \<and> error r = None) \<and>
   (\<not> success r \<longrightarrow> error r \<noteq> None \<and> data r = None)"
  by (auto simp: apiCall_def apiCall_try_def error_body_try_def js_or_def Let_def
           split: sum.splits prod.splits if_splits dest: truthy_defined)

text \<open>
  The fallback to the plain text of the body is never taken for a body that has text:
  \<^verbatim>\<open>response.json()\<close> has read the body before it fails, so \<^verbatim>\<open>response.text()\<close> in the
  inner \<^verbatim>\<open>catch\<close> throws, and the caller gets the message of that \<^verbatim>\<open>TypeError\<close>.
\<close>

lemma apiCall_text_fallback_fails:
  assumes "fst (fetchWithRetry fetch maxRetries) = Inr r" and "\<not> ok r" and "body r = TextBody t"
  shows "apiCall fetch maxRetries =
           Inr \<lparr>data = None, error = Some (JString (err_message body_used_error)), success = False\<rparr>"
  using assms
  by (simp add: apiCall_def apiCall_try_def error_body_try_def json_method_def text_method_def)

text \<open>
  C2. \<^verbatim>\<open>apiCall\<close> never throws: it always returns a result. Whatever its \<^verbatim>\<open>try\<close> block
  throws is returned as a failed result with the message of the error (or
  \<^verbatim>\<open>Unknown error occurred\<close> for a value that is not an \<^verbatim>\<open>Error\<close>); this covers what
  \<^verbatim>\<open>fetchWithRetry\<close> throws (transport failure, exhausted retries, timeout) and what
  parsing the body of an ok response throws.
\<close>

theorem apiCall_never_raises:
  "(\<exists>result. apiCall fetch maxRetries = Inr result) \<and>
   (\<forall>e. fst (fetchWithRetry fetch maxRetries) = Inl e \<longrightarrow>
      apiCall fetch maxRetries =
        Inr \<lparr>data = None, error = Some (JString (catch_message e)), success = False\<rparr>) \<and>
   (\<forall>r e. fst (fetchWithRetry fetch maxRetries) = Inr r \<and> ok r \<and>
          fst (json_method r False) = Inl e \<longrightarrow>
      apiCall fetch maxRetries =
        Inr \<lparr>data = None, error = Some (JString (catch_message e)), success = False\<rparr>) \<and>
   (\<forall>e. apiCall_try fetch maxRetries = Inl e \<longrightarrow>
      apiCall fetch maxRetries =
        Inr \<lparr>data = None, error = Some (JString (catch_message e)), success = False\<rparr>)"
  using apiCall_returns [of fetch maxRetries]
  by (auto simp: apiCall_caught apiCall_try_executor_fault apiCall_try_parse_fault)

theorem apiCall_never_raises_witness:
  "apiCall (\<lambda>k. Rejects (Err (JsError ''TypeError'' ''Failed to fetch''))) 3 =
     Inr \<lparr>data = None, error = Some (JString ''Failed to fetch''), success = False\<rparr> \<and>
   apiCall (\<lambda>k. Resolves \<lparr>status = 200, statusText = ''OK'', body = TextBody ''<html>''\<rparr>) 3 =
     Inr \<lparr>data = None, error = Some (JString ''Unexpected token in JSON''), success = False\<rparr>"
proof -
  let ?fa = "\<lambda>k::nat. Rejects (Err (JsError ''TypeError'' ''Failed to fetch''))"
  let ?r = "\<lparr>status = 200, statusText = ''OK'', body = TextBody ''<html>''\<rparr>"
  have ha: "fst (fetchWithRetry ?fa 3) = Inl (Err (JsError ''TypeError'' ''Failed to fetch''))"
    by (simp add: executor_network_failure)
  have hb: "fst (fetchWithRetry (\<lambda>k. Resolves ?r) 3) = Inr ?r \<and> ok ?r \<and>
            fst (json_method ?r False) = Inl (Err json_syntax_error)"
    by (simp add: executor_single attempt_try_def ok_def json_method_def)
  from apiCall_never_raises [of ?fa 3] ha
  have a: "apiCall ?fa 3 =
      Inr \<lparr>data = None, error = Some (JString ''Failed to fetch''), success = False\<rparr>"
    by simp
  from apiCall_never_raises [of "\<lambda>k. Resolves ?r" 3] hb
  have b: "apiCall (\<lambda>k. Resolves ?r) 3 =
      Inr \<lparr>data = None, error = Some (JString (catch_message (Err json_syntax_error))),
           success = False\<rparr>"
    by blast
  from a b show ?thesis by (simp add: json_syntax_error_def)
qed

text \<open>
  C7. The error of a failed result is meant to be a string: the interface
  \<^verbatim>\<open>ApiResponse\<close> declares \<^verbatim>\<open>error?: string\<close>. The code passes the \<^verbatim>\<open>detail\<close> (or
  \<^verbatim>\<open>message\<close>) property of a JSON error body on as it is: for the body of a validation
  error, whose \<^verbatim>\<open>detail\<close> is a list, the error of the result is that list and not a
  string.
\<close>

theorem apiCall_error_not_a_string:
  "apiCall (\<lambda>k. Resolves
       \<lparr>status = 422, statusText = ''Unprocessable Entity'',
        body = JsonBody (''{'' @ quoted ''detail'' @ '':['' @ quoted ''field required'' @ '']}'')
                 (JObject [(''detail'', JArray [JString ''field required''])])\<rparr>) 3
     = Inr \<lparr>data = None, error = Some (JArray [JString ''field required'']), success = False\<rparr>"
  by (simp add: apiCall_def apiCall_try_def executor_single attempt_try_def ok_def
        error_body_try_def json_method_def)

text \<open>
  The fallback chain in the wording of the specification fails in two ways. A 404 whose
  body is the JSON document \<open>{}\<close> has neither field and a body text that is not empty,
  so the chain gives the text \<open>{}\<close>; the code gives the status line. A 500 whose body
  has a \<^verbatim>\<open>detail\<close> never reaches \<^verbatim>\<open>apiCall\<close> as a response: after three attempts the
  error is the \<^verbatim>\<open>Server error\<close> of \<^verbatim>\<open>fetchWithRetry\<close>, not the \<^verbatim>\<open>detail\<close>.
\<close>

theorem apiCall_error_chain_counterexample:
  "apiCall (\<lambda>k. Resolves \<lparr>status = 404, statusText = ''Not Found'', body = JsonBody ''{}'' (JObject [])\<rparr>) 3
     = Inr \<lparr>data = None, error = Some (JString ''HTTP 404: Not Found''), success = False\<rparr> \<and>
   spec_error_chain \<lparr>status = 404, statusText = ''Not Found'', body = JsonBody ''{}'' (JObject [])\<rparr>
     = JString ''{}'' \<and>
   apiCall (\<lambda>k. Resolves \<lparr>status = 500, statusText = ''Internal Server Error'',
        body = JsonBody (''{'' @ quoted ''detail'' @ '':'' @ quoted ''Database is down'' @ ''}'')
                 (JObject [(''detail'', JString ''Database is down'')])\<rparr>) 3
     = Inr \<lparr>data = None, error = Some (JString ''Server error: 500 Internal Server Error''),
            success = False\<rparr> \<and>
   spec_error_chain \<lparr>status = 500, statusText = ''Internal Server Error'',
        body = JsonBody (''{'' @ quoted ''detail'' @ '':'' @ quoted ''Database is down'' @ ''}'')
                 (JObject [(''detail'', JString ''Database is down'')])\<rparr>
     = JString ''Database is down''"
  by (simp add: apiCall_def apiCall_try_def fetchWithRetry_def fetchWithRetry_loop.simps
        attempt_try_def ok_def server_error_def backoff_delay_def error_body_try_def
        json_method_def js_or_def status_line_def string_of_nat.simps spec_error_chain_def)

text \<open>
  C8, amended. A response that \<^verbatim>\<open>fetchWithRetry\<close> returns and that is not ok is a 4xx.
  When its body is a JSON document whose properties can be read (any value but
  \<^verbatim>\<open>null\<close>), the error is the \<^verbatim>\<open>detail\<close> property if that is truthy, else the
  \<^verbatim>\<open>message\<close> property if that is truthy, else the status line
  \<^verbatim>\<open>HTTP <status>: <statusText>\<close>; the text of the body is not used. When the response
  has a null body (no body at all, as the response to a HEAD request has; an empty body
  is not a null body), the error is the status line.
\<close>

theorem apiCall_error_chain:
  assumes "fst (fetchWithRetry fetch maxRetries) = Inr r" and "\<not> ok r"
  shows "400 \<le> status r \<and> status r < 500 \<and>
         (\<forall>t v detail message.
            body r = JsonBody t v \<and> get_property v ''detail'' = Inr detail \<and>
            get_property v ''message'' = Inr message \<longrightarrow>
            apiCall fetch maxRetries =
              Inr \<lparr>data = None,
                   error = (if truthy detail then detail
                            else if truthy message then message
                            else Some (JString (''HTTP '' @ string_of_nat (status r) @ '': ''
                                                  @ statusText r))),
                   success = False\<rparr>) \<and>
         (body r = NullBody \<longrightarrow>
            apiCall fetch maxRetries =
              Inr \<lparr>data = None,
                   error = Some (JString (''HTTP '' @ string_of_nat (status r) @ '': '' @ statusText r)),
                   success = False\<rparr>)"
proof -
  from assms have "400 \<le> status r \<and> status r < 500"
    using loop_returns [of fetch maxRetries 1 None r] by (simp add: fetchWithRetry_def)
  moreover from assms have "\<forall>t v detail message.
            body r = JsonBody t v \<and> get_property v ''detail'' = Inr detail \<and>
            get_property v ''message'' = Inr message \<longrightarrow>
            apiCall fetch maxRetries =
              Inr \<lparr>data = None,
                   error = (if truthy detail then detail
                            else if truthy message then message
                            else Some (JString (''HTTP '' @ string_of_nat (status r) @ '': ''
                                                  @ statusText r))),
                   success = False\<rparr>"
    by (auto simp: apiCall_def apiCall_try_def error_body_try_def json_method_def js_or_def
          status_line_def)
  moreover from assms have "body r = NullBody \<longrightarrow>
            apiCall fetch maxRetries =
              Inr \<lparr>data = None,
                   error = Some (JString (''HTTP '' @ string_of_nat (status r) @ '': '' @ statusText r)),
                   success = False\<rparr>"
    by (auto simp: apiCall_def apiCall_try_def error_body_try_def json_method_def text_method_def
          status_line_def)
  ultimately show ?thesis by blast
qed

theorem apiCall_error_chain_witness:
  "apiCall (\<lambda>k. Resolves
       \<lparr>status = 404, statusText = ''Not Found'',
        body = JsonBody (''{'' @ quoted ''detail'' @ '':'' @ quoted ''Course not found'' @ ''}'')
                 (JObject [(''detail'', JString ''Course not found'')])\<rparr>) 3
     = Inr \<lparr>data = None, error = Some (JString ''Course not found''), success = False\<rparr> \<and>
   apiCall (\<lambda>k. Resolves \<lparr>status = 404, statusText = ''Not Found'', body = NullBody\<rparr>) 3
     = Inr \<lparr>data = None, error = Some (JString ''HTTP 404: Not Found''), success = False\<rparr>"
proof -
  let ?t = "''{'' @ quoted ''detail'' @ '':'' @ quoted ''Course not found'' @ ''}''"
  let ?v = "JObject [(''detail'', JString ''Course not found'')]"
  let ?r1 = "\<lparr>status = 404, statusText = ''Not Found'', body = JsonBody ?t ?v\<rparr>"
  let ?r2 = "\<lparr>status = 404, statusText = ''Not Found'', body = NullBody\<rparr>"
  have e1: "fst (fetchWithRetry (\<lambda>k. Resolves ?r1) 3) = Inr ?r1"
    by (simp add: executor_single attempt_try_def ok_def)
  have e2: "fst (fetchWithRetry (\<lambda>k. Resolves ?r2) 3) = Inr ?r2"
    by (simp add: executor_single attempt_try_def ok_def)
  have n1: "\<not> ok ?r1" and n2: "\<not> ok ?r2" by (simp_all add: ok_def)
  have p: "body ?r1 = JsonBody ?t ?v \<and>
           get_property ?v ''detail'' = Inr (Some (JString ''Course not found'')) \<and>
           get_property ?v ''message'' = Inr None"
    by simp
  from apiCall_error_chain [OF e1 n1] p
  have a: "apiCall (\<lambda>k. Resolves ?r1) 3 =
      Inr \<lparr>data = None,
           error = (if truthy (Some (JString ''Course not found''))
                    then Some (JString ''Course not found'')
                    else if truthy None then None
                    else Some (JString (''HTTP '' @ string_of_nat (status ?r1) @ '': ''
                                          @ statusText ?r1))),
           success = False\<rparr>"
    by blast
  from apiCall_error_chain [OF e2 n2]
  have b: "apiCall (\<lambda>k. Resolves ?r2) 3 =
      Inr \<lparr>data = None,
           error = Some (JString (''HTTP '' @ string_of_nat (status ?r2) @ '': '' @ statusText ?r2)),
           success = False\<rparr>"
    by simp
  from a b show ?thesis by (simp add: string_of_nat.simps)
qed

section \<open>The dashboard's poller, one iteration at a time\<close>

lemma poll_done: "\<not> i < M \<Longrightarrow> waitForGeneration_loop M fs i = (Inr True, [])"
  by (simp add: waitForGeneration_loop.simps)


lemma poll_continue:
  "i < M \<Longrightarrow> apiCall (fs i) 3 = Inr r \<Longrightarrow> \<not> reports_completed r \<Longrightarrow>
   waitForGeneration_loop M fs i =
     (fst (waitForGeneration_loop M fs (Suc i)),
      StatusCheck i # Sleep POLLING_INTERVAL # snd (waitForGeneration_loop M fs (Suc i)))"
  by (subst waitForGeneration_loop.simps) (simp add: Let_def)


lemma poll_never_completed:
  "\<forall>j. i \<le> j \<and> j < M \<longrightarrow> (\<forall>r. apiCall (fs j) 3 = Inr r \<longrightarrow> \<not> reports_completed r) \<Longrightarrow>
   waitForGeneration_loop M fs i =
     (Inr True, concat (map (\<lambda>j. [StatusCheck j, Sleep POLLING_INTERVAL]) [i..<M]))"
proof (induction "M - i" arbitrary: i)
  case 0
  then show ?case by (simp add: poll_done)
next
  case (Suc d)
  then have lt: "i < M" by simp
  obtain r where r: "apiCall (fs i) 3 = Inr r" using apiCall_returns by blast
  with Suc.prems lt have nc: "\<not> reports_completed r" by auto
  have d: "d = M - Suc i" using Suc.hyps by simp
  have prem: "\<forall>j. Suc i \<le> j \<and> j < M \<longrightarrow>
      (\<forall>r. apiCall (fs j) 3 = Inr r \<longrightarrow> \<not> reports_completed r)"
    using Suc.prems by (meson Suc_leD)
  have ih: "waitForGeneration_loop M fs (Suc i) =
     (Inr True, concat (map (\<lambda>j. [StatusCheck j, Sleep POLLING_INTERVAL]) [Suc i..<M]))"
    using d prem by (rule Suc.hyps(1))
  show ?case using lt r nc by (simp add: poll_continue ih upt_conv_Cons)
qed


lemma failed_result_not_completed:
  "\<not> reports_completed \<lparr>data = None, error = x, success = False\<rparr>"
  by (simp add: reports_completed_def)

lemma apiCall_network_failure:
  "apiCall (\<lambda>k. Rejects (Err (JsError ''TypeError'' ''Failed to fetch''))) 3 =
     Inr \<lparr>data = None, error = Some (JString ''Failed to fetch''), success = False\<rparr>"
  using apiCall_executor_fault [of "\<lambda>k. Rejects (Err (JsError ''TypeError'' ''Failed to fetch''))" 3
          "Err (JsError ''TypeError'' ''Failed to fetch'')"]
  by (simp add: executor_network_failure)

section \<open>The generator's poller, one iteration at a time\<close>

lemma checks_append: "checks (xs @ ys) = checks xs @ checks ys"
  by (induction xs rule: checks.induct) auto

lemma gen_exhausted:
  "\<not> now (Suc i) - st < W \<Longrightarrow>
   waitForGenerationCompletion_loop now fetch W st i tr = Some (Inl timed_out, tr)"
  by (subst waitForGenerationCompletion_loop.simps) simp


lemma gen_pending:
  "now (Suc i) - st < W \<Longrightarrow> status_try (fetch i) = Inr False \<Longrightarrow>
   waitForGenerationCompletion_loop now fetch W st i tr =
     waitForGenerationCompletion_loop now fetch W st (Suc i) (tr @ [StatusCheck i, Sleep pollInterval])"
  by (subst waitForGenerationCompletion_loop.simps) simp

lemma gen_failed:
  "now (Suc i) - st < W \<Longrightarrow> status_try (fetch i) = Inl e \<Longrightarrow>
   waitForGenerationCompletion_loop now fetch W st i tr =
     waitForGenerationCompletion_loop now fetch W st (Suc i)
       (tr @ [StatusCheck i, PollWarn e, Sleep pollInterval])"
  by (subst waitForGenerationCompletion_loop.simps) simp

text \<open>
  As long as the clock allows an iteration and no check reports completion, the session
  goes on: from iteration \<open>i\<close> it reaches iteration \<open>n\<close>, with one check per iteration.
\<close>

lemma gen_run:
  "i \<le> n \<Longrightarrow>
   \<forall>j. i \<le> j \<and> j < n \<longrightarrow> now (Suc j) - st < W \<and> status_try (fetch j) \<noteq> Inr True \<Longrightarrow>
   \<exists>tr'. waitForGenerationCompletion_loop now fetch W st i tr =
           waitForGenerationCompletion_loop now fetch W st n (tr @ tr') \<and>
         checks tr' = [i..<n]"
proof (induction n)
  case 0
  then show ?case by (intro exI [of _ "[]"]) simp
next
  case (Suc n)
  show ?case
  proof (cases "i = Suc n")
    case True
    then show ?thesis by (intro exI [of _ "[]"]) simp
  next
    case False
    with Suc.prems have le: "i \<le> n" by simp
    have "\<forall>j. i \<le> j \<and> j < n \<longrightarrow> now (Suc j) - st < W \<and> status_try (fetch j) \<noteq> Inr True"
      using Suc.prems(2) by (meson less_Suc_eq)
    with Suc.IH le obtain tr' where
      run: "waitForGenerationCompletion_loop now fetch W st i tr =
            waitForGenerationCompletion_loop now fetch W st n (tr @ tr')"
      and ch: "checks tr' = [i..<n]" by blast
    from Suc.prems(2) le have b: "now (Suc n) - st < W" and nc: "status_try (fetch n) \<noteq> Inr True"
      by auto
    show ?thesis
    proof (cases "status_try (fetch n)")
      case (Inl e)
      show ?thesis
        using run ch le
          gen_failed [where now = now and fetch = fetch and i = n and tr = "tr @ tr'", OF b Inl]
        by (intro exI [of _ "tr' @ [StatusCheck n, PollWarn e, Sleep pollInterval]"])
           (simp add: checks_append)
    next
      case (Inr c)
      with nc have f: "status_try (fetch n) = Inr False" by simp
      show ?thesis
        using run ch le
          gen_pending [where now = now and fetch = fetch and i = n and tr = "tr @ tr'", OF b f]
        by (intro exI [of _ "tr' @ [StatusCheck n, Sleep pollInterval]"])
           (simp add: checks_append)
    qed
  qed
qed

lemma gen_budget_exhausted:
  assumes "\<forall>j<n. now (Suc j) - now 0 < W \<and> status_try (fetch j) \<noteq> Inr True"
    and "\<not> now (Suc n) - now 0 < W"
  shows "\<exists>tr. waitForGenerationCompletion now fetch W = Some (Inl timed_out, tr) \<and>
              checks tr = [0..<n]"
proof -
  from assms(1)
  have "\<forall>j. 0 \<le> j \<and> j < n \<longrightarrow> now (Suc j) - now 0 < W \<and> status_try (fetch j) \<noteq> Inr True"
    by simp
  from gen_run [OF _ this, of "[]"] obtain tr' where
    "waitForGenerationCompletion_loop now fetch W (now 0) 0 [] =
       waitForGenerationCompletion_loop now fetch W (now 0) n tr'" and "checks tr' = [0..<n]"
    by auto
  with assms(2) show ?thesis
    by (auto simp: waitForGenerationCompletion_def gen_exhausted)
qed

lemma fc_Nil: "failures_continue now fetch W st res []"
  by (simp add: failures_continue_def)

lemma fc_check_ok:
  "status_try (fetch i) = Inr c \<Longrightarrow> failures_continue now fetch W st res suf \<Longrightarrow>
   failures_continue now fetch W st res (StatusCheck i # suf)"
  unfolding failures_continue_def
  by (intro allI impI) (auto simp: Cons_eq_append_conv)

lemma fc_other:
  "(\<And>j. x \<noteq> StatusCheck j) \<Longrightarrow> failures_continue now fetch W st res suf \<Longrightarrow>
   failures_continue now fetch W st res (x # suf)"
  unfolding failures_continue_def
  by (intro allI impI) (auto simp: Cons_eq_append_conv)

lemma fc_check_failed:
  assumes "status_try (fetch i) = Inl e0"
    and "failures_continue now fetch W st res suf"
    and "now (Suc (Suc i)) - st < W \<longrightarrow> (\<exists>rest. suf = StatusCheck (Suc i) # rest)"
    and "\<not> now (Suc (Suc i)) - st < W \<longrightarrow> suf = [] \<and> res = Inl timed_out"
  shows "failures_continue now fetch W st res
           (StatusCheck i # PollWarn e0 # Sleep pollInterval # suf)"
  unfolding failures_continue_def
proof (intro allI impI)
  fix pre j post e
  assume eq: "StatusCheck i # PollWarn e0 # Sleep pollInterval # suf = pre @ StatusCheck j # post"
    and fl: "status_try (fetch j) = Inl e"
  show "\<exists>post'. post = PollWarn e # Sleep pollInterval # post' \<and>
       (now (Suc (Suc j)) - st < W \<longrightarrow> (\<exists>post''. post' = StatusCheck (Suc j) # post'')) \<and>
       (\<not> now (Suc (Suc j)) - st < W \<longrightarrow> post' = [] \<and> res = Inl timed_out)"
  proof (cases pre)
    case Nil
    with eq have "j = i" and "post = PollWarn e0 # Sleep pollInterval # suf" by simp_all
    with fl assms show ?thesis by simp
  next
    case (Cons x pre1)
    with eq obtain pre2 where "suf = pre2 @ StatusCheck j # post"
      by (auto simp: Cons_eq_append_conv)
    with assms(2) fl show ?thesis unfolding failures_continue_def by blast
  qed
qed

text \<open>
  The events of a session that ends, from iteration \<open>i\<close> on: by induction on the
  computation of the loop.
\<close>

lemma gen_shape:
  assumes "waitForGenerationCompletion_loop now fetch W st i tr = Some y"
  shows "\<exists>suf. snd y = tr @ suf \<and>
     (now (Suc i) - st < W \<longrightarrow> (\<exists>rest. suf = StatusCheck i # rest)) \<and>
     (\<not> now (Suc i) - st < W \<longrightarrow> suf = [] \<and> fst y = Inl timed_out) \<and>
     failures_continue now fetch W st (fst y) suf"
proof -
  let ?Q = "\<lambda>now fetch W st i tr y. \<exists>suf. snd y = tr @ suf \<and>
     (now (Suc i) - st < W \<longrightarrow> (\<exists>rest. suf = StatusCheck i # rest)) \<and>
     (\<not> now (Suc i) - st < W \<longrightarrow> suf = [] \<and> fst y = Inl timed_out) \<and>
     failures_continue now fetch W st (fst y) suf"
  have "?Q now fetch W st i tr y"
  proof (rule waitForGenerationCompletion_loop.raw_induct [where P = ?Q])
    show "waitForGenerationCompletion_loop now fetch W st i tr = Some y" by (rule assms)
  next
    fix f :: "(nat \<Rightarrow> int) \<Rightarrow> (nat \<Rightarrow> fetch_outcome) \<Rightarrow> int \<Rightarrow> int \<Rightarrow> nat \<Rightarrow> poll_event list
                \<Rightarrow> ((thrown + bool) \<times> poll_event list) option"
      and now fetch W st i tr y
    assume IH: "\<And>now fetch W st i tr y. f now fetch W st i tr = Some y \<Longrightarrow> ?Q now fetch W st i tr y"
      and prem: "(if now (Suc i) - st < W then
        (case status_try (fetch i) of
           Inr completed \<Rightarrow>
             if completed then Some (Inr True, tr @ [StatusCheck i])
             else f now fetch W st (Suc i) (tr @ [StatusCheck i, Sleep pollInterval])
         | Inl e \<Rightarrow> f now fetch W st (Suc i) (tr @ [StatusCheck i, PollWarn e, Sleep pollInterval]))
        else Some (Inl timed_out, tr)) = Some y"
    show "?Q now fetch W st i tr y"
    proof (cases "now (Suc i) - st < W")
      case False
      with prem have y: "y = (Inl timed_out, tr)" by simp
      show ?thesis using False
        by (intro exI [of _ "[]"]) (simp add: y fc_Nil)
    next
      case b: True
      show ?thesis
      proof (cases "status_try (fetch i)")
        case (Inr c)
        show ?thesis
        proof (cases c)
          case True
          with prem b Inr have y: "y = (Inr True, tr @ [StatusCheck i])" by simp
          have "failures_continue now fetch W st (Inr True) [StatusCheck i]"
            using Inr by (intro fc_check_ok fc_Nil)
          with b show ?thesis
            by (intro exI [of _ "[StatusCheck i]"]) (simp add: y)
        next
          case False
          with prem b Inr
          have "f now fetch W st (Suc i) (tr @ [StatusCheck i, Sleep pollInterval]) = Some y"
            by simp
          from IH [OF this] obtain suf where
            s1: "snd y = (tr @ [StatusCheck i, Sleep pollInterval]) @ suf"
            and s4: "failures_continue now fetch W st (fst y) suf"
            by blast
          have "failures_continue now fetch W st (fst y) (StatusCheck i # Sleep pollInterval # suf)"
            using Inr s4 by (intro fc_check_ok fc_other) auto
          with s1 b show ?thesis
            by (intro exI [of _ "StatusCheck i # Sleep pollInterval # suf"]) simp
        qed
      next
        case (Inl e0)
        with prem b
        have "f now fetch W st (Suc i) (tr @ [StatusCheck i, PollWarn e0, Sleep pollInterval]) = Some y"
          by simp
        from IH [OF this] obtain suf where
          s1: "snd y = (tr @ [StatusCheck i, PollWarn e0, Sleep pollInterval]) @ suf"
          and s2: "now (Suc (Suc i)) - st < W \<longrightarrow> (\<exists>rest. suf = StatusCheck (Suc i) # rest)"
          and s3: "\<not> now (Suc (Suc i)) - st < W \<longrightarrow> suf = [] \<and> fst y = Inl timed_out"
          and s4: "failures_continue now fetch W st (fst y) suf"
          by blast
        have "failures_continue now fetch W st (fst y)
                (StatusCheck i # PollWarn e0 # Sleep pollInterval # suf)"
          using Inl s4 s2 s3 by (rule fc_check_failed)
        with s1 b show ?thesis
          by (intro exI [of _ "StatusCheck i # PollWarn e0 # Sleep pollInterval # suf"]) simp
      qed
    qed
  qed
  then show ?thesis .
qed

lemma gen_failure_continues:
  assumes "waitForGenerationCompletion now fetch W = Some (res, pre @ StatusCheck i # post)"
    and "fetch i = Rejects e"
  shows "\<exists>post'. post = PollWarn e # Sleep pollInterval # post' \<and>
           (now (Suc (Suc i)) - now 0 < W \<longrightarrow> (\<exists>post''. post' = StatusCheck (Suc i) # post'')) \<and>
           (\<not> now (Suc (Suc i)) - now 0 < W \<longrightarrow> post' = [] \<and> res = Inl timed_out)"
proof -
  from assms(1) gen_shape [of now fetch W "now 0" 0 "[]" "(res, pre @ StatusCheck i # post)"]
  have "failures_continue now fetch W (now 0) res (pre @ StatusCheck i # post)"
    by (auto simp: waitForGenerationCompletion_def)
  moreover have "status_try (fetch i) = Inl e" using assms(2) by (simp add: status_try_def)
  ultimately show ?thesis unfolding failures_continue_def by blast
qed



section \<open>Properties of the pollers\<close>

text \<open>
  The fail-open wording of the specification fails for the generator's poller: with the default
  \<^verbatim>\<open>maxWaitTime\<close> of 300000, a clock that advances by 3000 between two readings and a
  status endpoint that always answers \<^verbatim>\<open>completed: false\<close>, the session does not return a
  truthy value; it throws \<^verbatim>\<open>Generation process timed out\<close>.
\<close>

theorem poller_fail_open_counterexample:
  "map_option fst
     (waitForGenerationCompletion (\<lambda>k. 3000 * int k)
        (\<lambda>i. Resolves \<lparr>status = 200, statusText = ''OK'',
                        body = JsonBody (''{'' @ quoted ''completed'' @ '':false}'')
                                 (JObject [(''completed'', JBool False)])\<rparr>)
        300000)
     = Some (Inl (Err (JsError ''Error'' ''Generation process timed out'')))"
proof -
  let ?now = "\<lambda>k. 3000 * int k"
  let ?fetch = "\<lambda>i::nat. Resolves \<lparr>status = 200, statusText = ''OK'',
                        body = JsonBody (''{'' @ quoted ''completed'' @ '':false}'')
                                 (JObject [(''completed'', JBool False)])\<rparr>"
  have h1: "\<forall>j<99. ?now (Suc j) - ?now 0 < 300000 \<and> status_try (?fetch j) \<noteq> Inr True"
    by (simp add: status_try_def ok_def json_method_def)
  have h2: "\<not> ?now (Suc 99) - ?now 0 < 300000" by simp
  from gen_budget_exhausted [of 99 ?now 300000 ?fetch, OF h1 h2] show ?thesis
    by (auto simp: timed_out_def)
qed

text \<open>
  C1, amended. The dashboard's poller \<^verbatim>\<open>waitForGeneration\<close> has a budget of iterations,
  fixed at 60 (its loop is stated here for any bound \<open>M\<close>): when no status check
  reports completion it makes exactly that many checks, each followed by the wait, and
  returns true. The generator's poller \<^verbatim>\<open>waitForGenerationCompletion\<close> has a budget of
  time, not of iterations: when the clock passes the budget before the test of
  iteration \<open>n\<close> and no earlier check has reported completion, it has made \<open>n\<close> checks
  and throws \<^verbatim>\<open>Generation process timed out\<close>.
\<close>

theorem pollers_budget_exhausted:
  "((\<forall>i<M. \<forall>r. apiCall (fetches i) 3 = Inr r \<longrightarrow> \<not> reports_completed r) \<longrightarrow>
      waitForGeneration_loop M fetches 0 =
        (Inr True, concat (map (\<lambda>i. [StatusCheck i, Sleep POLLING_INTERVAL]) [0..<M]))) \<and>
   ((\<forall>i<60. \<forall>r. apiCall (fetches i) 3 = Inr r \<longrightarrow> \<not> reports_completed r) \<longrightarrow>
      waitForGeneration fetches =
        (Inr True, concat (map (\<lambda>i. [StatusCheck i, Sleep POLLING_INTERVAL]) [0..<60]))) \<and>
   ((\<forall>j<n. now (Suc j) - now 0 < maxWaitTime \<and> status_try (fetch j) \<noteq> Inr True) \<and>
    \<not> now (Suc n) - now 0 < maxWaitTime \<longrightarrow>
      (\<exists>tr. waitForGenerationCompletion now fetch maxWaitTime =
               Some (Inl (Err (JsError ''Error'' ''Generation process timed out'')), tr) \<and>
            checks tr = [0..<n]))"
proof (intro conjI impI)
  assume "\<forall>i<M. \<forall>r. apiCall (fetches i) 3 = Inr r \<longrightarrow> \<not> reports_completed r"
  then have "\<forall>j. 0 \<le> j \<and> j < M \<longrightarrow> (\<forall>r. apiCall (fetches j) 3 = Inr r \<longrightarrow> \<not> reports_completed r)"
    by simp
  then show "waitForGeneration_loop M fetches 0 =
      (Inr True, concat (map (\<lambda>i. [StatusCheck i, Sleep POLLING_INTERVAL]) [0..<M]))"
    by (rule poll_never_completed)
next
  assume "\<forall>i<60. \<forall>r. apiCall (fetches i) 3 = Inr r \<longrightarrow> \<not> reports_completed r"
  then have "\<forall>j. 0 \<le> j \<and> j < 60 \<longrightarrow> (\<forall>r. apiCall (fetches j) 3 = Inr r \<longrightarrow> \<not> reports_completed r)"
    by simp
  then show "waitForGeneration fetches =
      (Inr True, concat (map (\<lambda>i. [StatusCheck i, Sleep POLLING_INTERVAL]) [0..<60]))"
    unfolding waitForGeneration_def by (rule poll_never_completed)
next
  assume "(\<forall>j<n. now (Suc j) - now 0 < maxWaitTime \<and> status_try (fetch j) \<noteq> Inr True) \<and>
          \<not> now (Suc n) - now 0 < maxWaitTime"
  then have a: "\<forall>j<n. now (Suc j) - now 0 < maxWaitTime \<and> status_try (fetch j) \<noteq> Inr True"
    and b: "\<not> now (Suc n) - now 0 < maxWaitTime" by simp_all
  from gen_budget_exhausted [OF a b]
  show "\<exists>tr. waitForGenerationCompletion now fetch maxWaitTime =
               Some (Inl (Err (JsError ''Error'' ''Generation process timed out'')), tr) \<and>
            checks tr = [0..<n]"
    by (simp add: timed_out_def)
qed

theorem pollers_budget_exhausted_witness:
  "waitForGeneration_loop 2 (\<lambda>i k. Rejects (Err (JsError ''TypeError'' ''Failed to fetch''))) 0 =
     (Inr True, [StatusCheck 0, Sleep 2000, StatusCheck 1, Sleep 2000]) \<and>
   waitForGeneration (\<lambda>i k. Rejects (Err (JsError ''TypeError'' ''Failed to fetch''))) =
     (Inr True, concat (map (\<lambda>i. [StatusCheck i, Sleep POLLING_INTERVAL]) [0..<60])) \<and>
   (\<exists>tr. waitForGenerationCompletion (\<lambda>k. 3000 * int k)
            (\<lambda>i. Resolves \<lparr>status = 503, statusText = ''Service Unavailable'', body = NullBody\<rparr>) 5000 =
            Some (Inl (Err (JsError ''Error'' ''Generation process timed out'')), tr) \<and>
          checks tr = [0])"
proof -
  let ?fs = "\<lambda>(i::nat) (k::nat). Rejects (Err (JsError ''TypeError'' ''Failed to fetch''))"
  let ?now = "\<lambda>k. 3000 * int k"
  let ?fetch = "\<lambda>i::nat. Resolves \<lparr>status = 503, statusText = ''Service Unavailable'', body = NullBody\<rparr>"
  note inst = pollers_budget_exhausted [of _ ?fs 1 ?now 5000 ?fetch]
  have h: "\<forall>i<M. \<forall>r. apiCall (?fs i) 3 = Inr r \<longrightarrow> \<not> reports_completed r" for M
    by (auto simp: apiCall_network_failure failed_result_not_completed)
  have g: "(\<forall>j<1. ?now (Suc j) - ?now 0 < 5000 \<and> status_try (?fetch j) \<noteq> Inr True) \<and>
           \<not> ?now (Suc 1) - ?now 0 < 5000"
    by (simp add: status_try_def ok_def)
  from inst [of 2] h [of 2]
  have a: "waitForGeneration_loop 2 ?fs 0 =
      (Inr True, concat (map (\<lambda>i. [StatusCheck i, Sleep POLLING_INTERVAL]) [0..<2]))"
    by blast
  from inst [of 2] h [of 60]
  have b: "waitForGeneration ?fs =
      (Inr True, concat (map (\<lambda>i. [StatusCheck i, Sleep POLLING_INTERVAL]) [0..<60]))"
    by blast
  from inst [of 2] g
  have c: "\<exists>tr. waitForGenerationCompletion ?now ?fetch 5000 =
            Some (Inl (Err (JsError ''Error'' ''Generation process timed out'')), tr) \<and>
          checks tr = [0..<1]"
    by blast
  have u: "[0..<2] = [0, Suc 0]" by (simp add: upt_conv_Cons)
  from a have a': "waitForGeneration_loop 2 ?fs 0 =
      (Inr True, [StatusCheck 0, Sleep 2000, StatusCheck 1, Sleep 2000])"
    by (simp add: u POLLING_INTERVAL_def)
  from a' b c show ?thesis by simp
qed



end
